theory Spec2Isabelle
  imports Main "HOL-Library.Sublist"
begin

section \<open>Python values and the operations the handlers use\<close>

text \<open>
  The three Lambda handlers receive JSON-shaped events. A value is modelled as the
  Python object \<open>json.loads\<close> yields: \<open>None\<close>, a bool, a number (an integer
  stands for it: the handlers never compute with one), a \<open>str\<close>, a list or a dict with
  string keys (an association list, looked up with \<open>map_of\<close>). Strings are lists of
  characters; the identifiers the handlers inspect (ARNs and table names) are ASCII.
\<close>

datatype json =
    JNull
  | JBool bool
  | JNum int
  | JStr string
  | JList "json list"
  | JDict "(string \<times> json) list"

text \<open>
  Every exception the handlers can meet is a subclass of Python's \<open>Exception\<close>.
  \<open>ClientError\<close> stands for any failure an external service answers a call with,
  \<open>ParamValidationError\<close> for a call the client library refuses to send.
\<close>

datatype error =
    KeyError string
  | TypeError
  | AttributeError
  | IndexError
  | ValueError
  | ClientError
  | ParamValidationError
  | RuntimeError string

text \<open>Sequencing of a fallible step with its continuation: an exception propagates.\<close>

fun and_then :: "error + 'a \<Rightarrow> ('a \<Rightarrow> error + 'b) \<Rightarrow> error + 'b" where
  "and_then (Inl e) f = Inl e"
| "and_then (Inr v) f = f v"

text \<open>\<open>d[k]\<close> with a string key: only a dict accepts it, a missing key raises.\<close>

fun py_getitem :: "json \<Rightarrow> string \<Rightarrow> error + json" where
  "py_getitem (JDict kvs) k = (case map_of kvs k of None \<Rightarrow> Inl (KeyError k) | Some v \<Rightarrow> Inr v)"
| "py_getitem _ k = Inl TypeError"

text \<open>\<open>d.get(k, default)\<close>: only a dict has the method.\<close>

fun py_get :: "json \<Rightarrow> string \<Rightarrow> json \<Rightarrow> error + json" where
  "py_get (JDict kvs) k d = Inr (case map_of kvs k of None \<Rightarrow> d | Some v \<Rightarrow> v)"
| "py_get _ k d = Inl AttributeError"

text \<open>Truth value of an object, as \<open>if x:\<close> tests it.\<close>

fun py_truthy :: "json \<Rightarrow> bool" where
  "py_truthy JNull = False"
| "py_truthy (JBool b) = b"
| "py_truthy (JNum n) = (n \<noteq> 0)"
| "py_truthy (JStr s) = (s \<noteq> [])"
| "py_truthy (JList xs) = (xs \<noteq> [])"
| "py_truthy (JDict kvs) = (kvs \<noteq> [])"

text \<open>
  The items \<open>for x in v\<close> visits; \<open>len(v)\<close> is defined for exactly the same values.
  A dict yields its keys, a string its characters.
\<close>

fun py_iter :: "json \<Rightarrow> error + json list" where
  "py_iter (JList xs) = Inr xs"
| "py_iter (JDict kvs) = Inr (map (\<lambda>kv. JStr (fst kv)) kvs)"
| "py_iter (JStr s) = Inr (map (\<lambda>c. JStr [c]) s)"
| "py_iter _ = Inl TypeError"

text \<open>\<open>v[:n]\<close>: a string or a list is cut, anything else cannot be sliced.\<close>

fun py_slice_to :: "nat \<Rightarrow> json \<Rightarrow> error + json" where
  "py_slice_to n (JStr s) = Inr (JStr (take n s))"
| "py_slice_to n (JList xs) = Inr (JList (take n xs))"
| "py_slice_to n _ = Inl TypeError"

subsection \<open>Strings\<close>

text \<open>\<open>str.lower\<close> on ASCII text.\<close>

definition lower_char :: "char \<Rightarrow> char" where
  "lower_char c =
     (case map_of (zip ''ABCDEFGHIJKLMNOPQRSTUVWXYZ'' ''abcdefghijklmnopqrstuvwxyz'') c of
        None \<Rightarrow> c
      | Some d \<Rightarrow> d)"

definition lower :: "string \<Rightarrow> string" where
  "lower s = map lower_char s"

text \<open>\<open>sub in s\<close> for strings: \<open>sub\<close> occurs as a contiguous block of \<open>s\<close>.\<close>

fun py_in :: "string \<Rightarrow> string \<Rightarrow> bool" where
  "py_in sub [] = (sub = [])"
| "py_in sub (c # cs) = (prefix sub (c # cs) \<or> py_in sub cs)"

text \<open>\<open>s.find(sep)\<close>: the index of the first occurrence, \<open>None\<close> for Python's \<open>-1\<close>.\<close>

fun find_sub :: "string \<Rightarrow> string \<Rightarrow> nat option" where
  "find_sub sep [] = (if sep = [] then Some 0 else None)"
| "find_sub sep (c # cs) =
     (if prefix sep (c # cs) then Some 0 else map_option Suc (find_sub sep cs))"

text \<open>
  \<open>s.split(sep)\<close> for a non-empty separator: cut at each occurrence, left to right,
  occurrences not overlapping. The empty separator is refused by \<open>py_split\<close> below.
\<close>

function split_at :: "string \<Rightarrow> string \<Rightarrow> string list" where
  "split_at sep s =
     (if sep = [] then [s]
      else case find_sub sep s of
             None \<Rightarrow> [s]
           | Some i \<Rightarrow> take i s # split_at sep (drop (i + length sep) s))"
  by pat_completeness auto
termination
proof (relation "measure (\<lambda>(sep, s). length s)")
  show "wf (measure (\<lambda>(sep, s). length s))" by simp
next
  fix sep s :: string and i :: nat
  assume sep: "sep \<noteq> []" and found: "find_sub sep s = Some i"
  have bound: "find_sub sep t = Some j \<Longrightarrow> j + length sep \<le> length t" for t j
  proof (induction t arbitrary: j)
    case Nil
    then show ?case by (simp split: if_splits)
  next
    case (Cons c cs)
    show ?case
    proof (cases "prefix sep (c # cs)")
      case True
      then have "length sep \<le> length (c # cs)" by (rule prefix_length_le)
      with True Cons.prems show ?thesis by simp
    next
      case False
      with Cons.prems obtain k where "find_sub sep cs = Some k" "j = Suc k" by auto
      with Cons.IH show ?thesis by fastforce
    qed
  qed
  from found have "i + length sep \<le> length s" by (rule bound)
  moreover from sep have "0 < length sep" by simp
  ultimately have "length s - (i + length sep) < length s" by arith
  then show "((sep, drop (i + length sep) s), (sep, s)) \<in> measure (\<lambda>(sep, s). length s)"
    by simp
qed

declare split_at.simps [simp del]

text \<open>An empty separator raises \<open>ValueError\<close>.\<close>

definition py_split :: "string \<Rightarrow> string \<Rightarrow> error + string list" where
  "py_split sep s = (if sep = [] then Inl ValueError else Inr (split_at sep s))"

text \<open>A method of \<open>str\<close> called on another kind of object raises \<open>AttributeError\<close>.\<close>

fun as_str :: "json \<Rightarrow> error + string" where
  "as_str (JStr s) = Inr s"
| "as_str _ = Inl AttributeError"

text \<open>\<open>xs[i]\<close> on a list, for \<open>i \<ge> 0\<close>.\<close>

definition py_index :: "'a list \<Rightarrow> nat \<Rightarrow> error + 'a" where
  "py_index xs i = (if i < length xs then Inr (xs ! i) else Inl IndexError)"


section \<open>Change events\<close>

text \<open>
  Both stream handlers start \<open>process_insert_event\<close> with the same two lines:
  \<^verbatim>\<open>table_name = record['eventSourceARN'].split(':table/')[1].split('/')[0]\<close> and
  \<^verbatim>\<open>new_image = record['dynamodb']['NewImage']\<close>.
\<close>

definition table_name_of :: "json \<Rightarrow> error + string" where
  "table_name_of record =
     and_then (py_getitem record ''eventSourceARN'') (\<lambda>arn.
     and_then (as_str arn) (\<lambda>s.
     and_then (py_split '':table/'' s) (\<lambda>parts.
     and_then (py_index parts 1) (\<lambda>rest.
     and_then (py_split ''/'' rest) (\<lambda>ps.
     py_index ps 0)))))"

definition new_image_of :: "json \<Rightarrow> error + json" where
  "new_image_of record =
     and_then (py_getitem record ''dynamodb'') (\<lambda>d. py_getitem d ''NewImage'')"

text \<open>\<^verbatim>\<open>new_image[k]['S']\<close>: both lookups raise when the key is missing.\<close>

definition attr_S :: "json \<Rightarrow> string \<Rightarrow> error + json" where
  "attr_S new_image k = and_then (py_getitem new_image k) (\<lambda>a. py_getitem a ''S'')"

text \<open>\<^verbatim>\<open>new_image.get(k, {}).get('S', default)\<close>.\<close>

definition attr_S_or :: "json \<Rightarrow> string \<Rightarrow> json \<Rightarrow> error + json" where
  "attr_S_or new_image k dflt =
     and_then (py_get new_image k (JDict [])) (\<lambda>a. py_get a ''S'' dflt)"

text \<open>The branch of the \<open>if\<close>/\<open>elif\<close> chain an insert event is routed to.\<close>

datatype branch = Comment | Message | Reaction | NoBranch

section \<open>Activity aggregator (backend/activity-aggregator/index.py)\<close>

subsection \<open>The profile store\<close>

text \<open>
  The user-profile table is external. An item is keyed by the string \<open>userId\<close> and the
  handler touches two of its attributes. \<open>update_item\<close> is an upsert: \<open>ADD\<close> on a
  missing item or attribute starts from zero, \<open>SET\<close> overwrites. A key that is not a
  string does not match the table's key schema and is rejected.
\<close>

record profile =
  commentCount :: "int option"
  lastActive :: "string option"

definition no_profile :: profile where
  "no_profile = \<lparr>commentCount = None, lastActive = None\<rparr>"

datatype request =
    AddCommentCount json int
  | SetLastActive json string

definition profile_of :: "(string \<rightharpoonup> profile) \<Rightarrow> string \<Rightarrow> profile" where
  "profile_of m u = (case m u of None \<Rightarrow> no_profile | Some p \<Rightarrow> p)"

definition count_of :: "(string \<rightharpoonup> profile) \<Rightarrow> string \<Rightarrow> int" where
  "count_of m u = (case commentCount (profile_of m u) of None \<Rightarrow> 0 | Some n \<Rightarrow> n)"

fun apply_request :: "request \<Rightarrow> (string \<rightharpoonup> profile) \<Rightarrow> error + (string \<rightharpoonup> profile)" where
  "apply_request (AddCommentCount (JStr u) d) m =
     Inr (m(u \<mapsto> (profile_of m u)\<lparr>commentCount := Some (count_of m u + d)\<rparr>))"
| "apply_request (SetLastActive (JStr u) ts) m =
     Inr (m(u \<mapsto> (profile_of m u)\<lparr>lastActive := Some ts\<rparr>))"
| "apply_request _ m = Inl ClientError"

text \<open>
  What the handler cannot control: whether the store serves the \<open>n\<close>-th request of an
  invocation, and what \<open>datetime.utcnow().isoformat()\<close> reads at that moment.
\<close>

record au_env =
  store_up :: "nat \<Rightarrow> bool"
  utcnow_iso :: "nat \<Rightarrow> string"

datatype au_line =
    Processing nat
  | RecordError error
  | Incremented json
  | IncrementError json error
  | Updated json
  | UpdateError json error

text \<open>
  The state an invocation acts on: the table's items, the requests sent to the table
  so far, and the lines printed.
\<close>

record au_world =
  items :: "string \<rightharpoonup> profile"
  calls :: "request list"
  out :: "au_line list"

text \<open>\<open>table.update_item(...)\<close>: the request is sent; it takes effect unless the call raises.\<close>

definition update_item :: "au_env \<Rightarrow> request \<Rightarrow> au_world \<Rightarrow> (error + unit) \<times> au_world" where
  "update_item env req w =
     (let w1 = w\<lparr>calls := calls w @ [req]\<rparr> in
      if store_up env (length (calls w)) then
        (case apply_request req (items w) of
           Inl e \<Rightarrow> (Inl e, w1)
         | Inr m \<Rightarrow> (Inr (), w1\<lparr>items := m\<rparr>))
      else (Inl ClientError, w1))"

subsection \<open>The handler\<close>

definition increment_comment_count :: "au_env \<Rightarrow> json \<Rightarrow> au_world \<Rightarrow> (error + unit) \<times> au_world" where
  "increment_comment_count env user_id w =
     (case update_item env (AddCommentCount user_id 1) w of
        (Inr u, w1) \<Rightarrow> (Inr (), w1\<lparr>out := out w1 @ [Incremented user_id]\<rparr>)
      | (Inl e, w1) \<Rightarrow> (Inr (), w1\<lparr>out := out w1 @ [IncrementError user_id e]\<rparr>))"

definition update_last_active :: "au_env \<Rightarrow> json \<Rightarrow> au_world \<Rightarrow> (error + unit) \<times> au_world" where
  "update_last_active env user_id w =
     (let now = utcnow_iso env (length (calls w)) @ ''Z'' in
      case update_item env (SetLastActive user_id now) w of
        (Inr u, w1) \<Rightarrow> (Inr (), w1\<lparr>out := out w1 @ [Updated user_id]\<rparr>)
      | (Inl e, w1) \<Rightarrow> (Inr (), w1\<lparr>out := out w1 @ [UpdateError user_id e]\<rparr>))"

definition au_branch :: "string \<Rightarrow> branch" where
  "au_branch table_name =
     (if py_in ''comment'' (lower table_name) \<and> \<not> py_in ''reaction'' (lower table_name)
        then Comment
      else if py_in ''message'' (lower table_name) then Message
      else if py_in ''reaction'' (lower table_name) then Reaction
      else NoBranch)"

definition au_process_insert_event :: "au_env \<Rightarrow> json \<Rightarrow> au_world \<Rightarrow> (error + unit) \<times> au_world" where
  "au_process_insert_event env record w =
     (case table_name_of record of
        Inl e \<Rightarrow> (Inl e, w)
      | Inr table_name \<Rightarrow>
     (case new_image_of record of
        Inl e \<Rightarrow> (Inl e, w)
      | Inr new_image \<Rightarrow>
     (case au_branch table_name of
        Comment \<Rightarrow>
          (case attr_S new_image ''userId'' of
             Inl e \<Rightarrow> (Inl e, w)
           | Inr user_id \<Rightarrow>
               (case increment_comment_count env user_id w of
                  (Inl e, w1) \<Rightarrow> (Inl e, w1)
                | (Inr u, w1) \<Rightarrow> update_last_active env user_id w1))
      | Message \<Rightarrow>
          (case attr_S_or new_image ''senderId'' JNull of
             Inl e \<Rightarrow> (Inl e, w)
           | Inr sender_id \<Rightarrow>
               if py_truthy sender_id then update_last_active env sender_id w
               else (Inr (), w))
      | Reaction \<Rightarrow>
          (case attr_S new_image ''userId'' of
             Inl e \<Rightarrow> (Inl e, w)
           | Inr user_id \<Rightarrow> update_last_active env user_id w)
      | NoBranch \<Rightarrow> (Inr (), w))))"

text \<open>One turn of the loop over the records: the \<open>try\<close> block and its \<open>except\<close>.\<close>

definition au_record :: "au_env \<Rightarrow> json \<Rightarrow> au_world \<Rightarrow> au_world" where
  "au_record env record w =
     (case py_getitem record ''eventName'' of
        Inl e \<Rightarrow> w\<lparr>out := out w @ [RecordError e]\<rparr>
      | Inr name \<Rightarrow>
          if name = JStr ''INSERT'' then
            (case au_process_insert_event env record w of
               (Inl e, w1) \<Rightarrow> w1\<lparr>out := out w1 @ [RecordError e]\<rparr>
             | (Inr u, w1) \<Rightarrow> w1)
          else w)"

fun au_records :: "au_env \<Rightarrow> json list \<Rightarrow> au_world \<Rightarrow> au_world" where
  "au_records env [] w = w"
| "au_records env (r # rs) w = au_records env rs (au_record env r w)"

definition au_ack :: json where
  "au_ack = JDict [(''statusCode'', JNum 200), (''body'', JStr ''Activity stats updated'')]"

definition au_lambda_handler :: "au_env \<Rightarrow> json \<Rightarrow> au_world \<Rightarrow> (error + json) \<times> au_world" where
  "au_lambda_handler env event w =
     (case and_then (py_getitem event ''Records'') py_iter of
        Inl e \<Rightarrow> (Inl e, w)
      | Inr records \<Rightarrow>
          (Inr au_ack, au_records env records (w\<lparr>out := out w @ [Processing (length records)]\<rparr>)))"


text \<open>
  What an observer of the table sees of an invocation: the items and the requests sent.
\<close>

definition store_view :: "au_world \<Rightarrow> (string \<rightharpoonup> profile) \<times> request list" where
  "store_view w = (items w, calls w)"

text \<open>The \<open>try\<close> block of the loop raises on this record, so that the \<open>except\<close> runs.\<close>

definition au_fails :: "au_env \<Rightarrow> json \<Rightarrow> au_world \<Rightarrow> bool" where
  "au_fails env record w =
     (case py_getitem record ''eventName'' of
        Inl e \<Rightarrow> True
      | Inr name \<Rightarrow>
          name = JStr ''INSERT'' \<and> isl (fst (au_process_insert_event env record w)))"

section \<open>Notification processor (backend/notification-processor/index.py)\<close>

text \<open>
  The handler owns an SES client. A message handed to \<open>ses.send_email\<close> is recorded in
  \<open>ses_calls\<close>; the service answers the \<open>n\<close>-th call with a message id or fails.
\<close>

record email =
  source :: string
  to_addresses :: "json list"
  subject :: json
  body_html :: json

record np_env =
  ses_from_email :: string
  ses_reply :: "nat \<Rightarrow> string option"

datatype np_line =
    NpProcessing nat
  | NpRecordError error
  | NewComment json json json
  | NewReaction json json
  | NewMessage json json
  | EmailSent json string
  | EmailError json error

record np_world =
  ses_calls :: "email list"
  np_out :: "np_line list"

text \<open>Each notification routine reads its fields in the source's order, then prints one line.\<close>

definition process_comment_notification :: "json \<Rightarrow> np_world \<Rightarrow> (error + unit) \<times> np_world" where
  "process_comment_notification new_image w =
     (case and_then (attr_S new_image ''itemId'') (\<lambda>item_id.
           and_then (attr_S new_image ''commentId'') (\<lambda>comment_id.
           and_then (attr_S new_image ''userId'') (\<lambda>user_id.
           and_then (attr_S_or new_image ''userName'' (JStr ''Someone'')) (\<lambda>user_name.
           and_then (attr_S new_image ''commentText'') (\<lambda>comment_text.
           and_then (attr_S_or new_image ''itemTitle'' (JStr ''a letter'')) (\<lambda>item_title.
           and_then (py_slice_to 50 comment_text) (\<lambda>snippet.
           Inr (NewComment user_name item_title snippet)))))))) of
        Inl e \<Rightarrow> (Inl e, w)
      | Inr line \<Rightarrow> (Inr (), w\<lparr>np_out := np_out w @ [line]\<rparr>))"

definition process_reaction_notification :: "json \<Rightarrow> np_world \<Rightarrow> (error + unit) \<times> np_world" where
  "process_reaction_notification new_image w =
     (case and_then (attr_S new_image ''commentId'') (\<lambda>comment_id.
           and_then (attr_S new_image ''userId'') (\<lambda>user_id.
           Inr (NewReaction user_id comment_id))) of
        Inl e \<Rightarrow> (Inl e, w)
      | Inr line \<Rightarrow> (Inr (), w\<lparr>np_out := np_out w @ [line]\<rparr>))"

definition process_message_notification :: "json \<Rightarrow> np_world \<Rightarrow> (error + unit) \<times> np_world" where
  "process_message_notification new_image w =
     (case and_then (attr_S new_image ''conversationId'') (\<lambda>conversation_id.
           and_then (attr_S new_image ''senderId'') (\<lambda>sender_id.
           and_then (attr_S_or new_image ''senderName'' (JStr ''Someone'')) (\<lambda>sender_name.
           and_then (attr_S new_image ''messageText'') (\<lambda>message_text.
           and_then (py_slice_to 50 message_text) (\<lambda>snippet.
           Inr (NewMessage sender_name snippet)))))) of
        Inl e \<Rightarrow> (Inl e, w)
      | Inr line \<Rightarrow> (Inr (), w\<lparr>np_out := np_out w @ [line]\<rparr>))"

definition np_branch :: "string \<Rightarrow> branch" where
  "np_branch table_name =
     (if py_in ''comment'' (lower table_name) then Comment
      else if py_in ''reaction'' (lower table_name) then Reaction
      else if py_in ''message'' (lower table_name) then Message
      else NoBranch)"

definition np_process_insert_event :: "json \<Rightarrow> np_world \<Rightarrow> (error + unit) \<times> np_world" where
  "np_process_insert_event record w =
     (case table_name_of record of
        Inl e \<Rightarrow> (Inl e, w)
      | Inr table_name \<Rightarrow>
     (case new_image_of record of
        Inl e \<Rightarrow> (Inl e, w)
      | Inr new_image \<Rightarrow>
     (case np_branch table_name of
        Comment \<Rightarrow> process_comment_notification new_image w
      | Reaction \<Rightarrow> process_reaction_notification new_image w
      | Message \<Rightarrow> process_message_notification new_image w
      | NoBranch \<Rightarrow> (Inr (), w))))"

definition np_record :: "json \<Rightarrow> np_world \<Rightarrow> np_world" where
  "np_record record w =
     (case py_getitem record ''eventName'' of
        Inl e \<Rightarrow> w\<lparr>np_out := np_out w @ [NpRecordError e]\<rparr>
      | Inr name \<Rightarrow>
          if name = JStr ''INSERT'' then
            (case np_process_insert_event record w of
               (Inl e, w1) \<Rightarrow> w1\<lparr>np_out := np_out w1 @ [NpRecordError e]\<rparr>
             | (Inr u, w1) \<Rightarrow> w1)
          else w)"

fun np_records :: "json list \<Rightarrow> np_world \<Rightarrow> np_world" where
  "np_records [] w = w"
| "np_records (r # rs) w = np_records rs (np_record r w)"

definition np_ack :: json where
  "np_ack = JDict [(''statusCode'', JNum 200), (''body'', JStr ''Notifications processed'')]"

definition np_lambda_handler :: "json \<Rightarrow> np_world \<Rightarrow> (error + json) \<times> np_world" where
  "np_lambda_handler event w =
     (case and_then (py_getitem event ''Records'') py_iter of
        Inl e \<Rightarrow> (Inl e, w)
      | Inr records \<Rightarrow>
          (Inr np_ack, np_records records (w\<lparr>np_out := np_out w @ [NpProcessing (length records)]\<rparr>)))"

text \<open>\<open>send_email\<close> is the only function of the module that calls SES.\<close>

definition send_email :: "np_env \<Rightarrow> json \<Rightarrow> json \<Rightarrow> json \<Rightarrow> np_world \<Rightarrow> json \<times> np_world" where
  "send_email env to_email subj body w =
     (let w1 = w\<lparr>ses_calls := ses_calls w @
                 [\<lparr>source = ses_from_email env, to_addresses = [to_email],
                   subject = subj, body_html = body\<rparr>]\<rparr> in
      case ses_reply env (length (ses_calls w)) of
        Some message_id \<Rightarrow> (JBool True, w1\<lparr>np_out := np_out w1 @ [EmailSent to_email message_id]\<rparr>)
      | None \<Rightarrow> (JBool False, w1\<lparr>np_out := np_out w1 @ [EmailError to_email ClientError]\<rparr>))"

definition should_send_notification :: "json \<Rightarrow> json \<Rightarrow> bool" where
  "should_send_notification user_id event_type = True"

section \<open>Amplify deployer (backend/lambdas/amplify-deployer/index.py)\<close>

text \<open>
  The Amplify service keeps the status of each job, keyed by application, branch and
  job id. The requests the client sends are recorded; \<open>create_or_update\<close> sends the
  first two kinds, \<open>poll\<close> calls \<open>get_job\<close> only.
\<close>

datatype api_call =
    CreateDeployment string string
  | StartDeployment string string string
  | GetJob string string string

datatype ad_line = DeploymentStatus string | DeleteNoAction

record ad_world =
  jobs :: "string \<times> string \<times> string \<rightharpoonup> string"
  api_calls :: "api_call list"
  helper_data :: "(string \<times> json) list"
  ad_out :: "ad_line list"

text \<open>
  \<open>amplify.get_job(appId, branchName, jobId)\<close> answering
  \<open>response["job"]["summary"]["status"]\<close>: the client refuses arguments that are not
  strings; the service fails for a job it does not know.
\<close>

fun get_job :: "json \<Rightarrow> json \<Rightarrow> json \<Rightarrow> ad_world \<Rightarrow> (error + string) \<times> ad_world" where
  "get_job (JStr app_id) (JStr branch_name) (JStr job_id) w =
     (let w1 = w\<lparr>api_calls := api_calls w @ [GetJob app_id branch_name job_id]\<rparr> in
      case jobs w (app_id, branch_name, job_id) of
        None \<Rightarrow> (Inl ClientError, w1)
      | Some status \<Rightarrow> (Inr status, w1))"
| "get_job _ _ _ w = (Inl ParamValidationError, w)"

text \<open>
  The first lines of \<open>poll\<close>: the identifiers carried over from the create phase,
  \<^verbatim>\<open>data = event.get("CrHelperData", {})\<close> and three lookups that raise when missing.
\<close>

definition poll_args :: "json \<Rightarrow> error + (json \<times> json \<times> json)" where
  "poll_args event =
     and_then (py_get event ''CrHelperData'' (JDict [])) (\<lambda>data.
     and_then (py_getitem data ''AppId'') (\<lambda>app_id.
     and_then (py_getitem data ''BranchName'') (\<lambda>branch_name.
     and_then (py_getitem data ''JobId'') (\<lambda>job_id.
     Inr (app_id, branch_name, job_id)))))"

text \<open>The tail of \<open>poll\<close>: \<open>True\<close>, \<open>None\<close> or a raised \<open>RuntimeError\<close>.\<close>

definition poll_verdict :: "string \<Rightarrow> error + json" where
  "poll_verdict status =
     (if status = ''SUCCEED'' then Inr (JBool True)
      else if status \<in> set [''PENDING'', ''PROVISIONING'', ''RUNNING''] then Inr JNull
      else Inl (RuntimeError (''Deployment failed: '' @ status)))"

definition poll :: "json \<Rightarrow> ad_world \<Rightarrow> (error + json) \<times> ad_world" where
  "poll event w =
     (case poll_args event of
        Inl e \<Rightarrow> (Inl e, w)
      | Inr (app_id, branch_name, job_id) \<Rightarrow>
          (case get_job app_id branch_name job_id w of
             (Inl e, w1) \<Rightarrow> (Inl e, w1)
           | (Inr status, w1) \<Rightarrow>
               (poll_verdict status, w1\<lparr>ad_out := ad_out w1 @ [DeploymentStatus status]\<rparr>)))"

definition delete :: "json \<Rightarrow> ad_world \<Rightarrow> (error + json) \<times> ad_world" where
  "delete event w = (Inr JNull, w\<lparr>ad_out := ad_out w @ [DeleteNoAction]\<rparr>)"


section \<open>Concrete events\<close>

text \<open>A poll event as the create phase leaves it, and a service holding that one job.\<close>

definition poll_event_example :: json where
  "poll_event_example =
     JDict [(''CrHelperData'',
             JDict [(''AppId'', JStr ''d1a2b3c4''), (''BranchName'', JStr ''main''),
                    (''JobId'', JStr ''7'')])]"

definition ad_world_example :: "string \<Rightarrow> ad_world" where
  "ad_world_example status =
     \<lparr>jobs = [(''d1a2b3c4'', ''main'', ''7'') \<mapsto> status], api_calls = [],
      helper_data = [], ad_out = []\<rparr>"



text \<open>
  Environments of the aggregator: a store that serves every request, one that serves
  none, and a clock. The records follow the fixtures of the handler's tests.
\<close>

definition always_up :: "nat \<Rightarrow> bool" where
  "always_up n = True"

definition always_down :: "nat \<Rightarrow> bool" where
  "always_down n = False"

definition fixed_clock :: "nat \<Rightarrow> string" where
  "fixed_clock n = ''2025-01-15T10:00:00.000000''"

definition env_up :: au_env where
  "env_up = \<lparr>store_up = always_up, utcnow_iso = fixed_clock\<rparr>"

definition env_down :: au_env where
  "env_down = \<lparr>store_up = always_down, utcnow_iso = fixed_clock\<rparr>"

definition comments_arn :: string where
  "comments_arn = ''arn:aws:dynamodb:us-east-1:123456789012:table/hold-that-thought-comments/stream/2024-01-01T00:00:00.000''"

definition comment_record :: json where
  "comment_record =
     JDict [(''eventName'', JStr ''INSERT''),
            (''dynamodb'', JDict [(''NewImage'',
               JDict [(''userId'', JDict [(''S'', JStr ''user-123'')]),
                      (''commentText'', JDict [(''S'', JStr ''Great letter!'')])])]),
            (''eventSourceARN'', JStr comments_arn)]"

definition profiles_example :: "string \<rightharpoonup> profile" where
  "profiles_example = [''user-123'' \<mapsto> \<lparr>commentCount = Some 0, lastActive = None\<rparr>]"

definition au_world_example :: au_world where
  "au_world_example = \<lparr>items = profiles_example, calls = [], out = []\<rparr>"


definition messages_arn :: string where
  "messages_arn = ''arn:aws:dynamodb:us-east-1:123456789012:table/hold-that-thought-messages/stream/2024-01-01T00:00:00.000''"

definition message_record :: json where
  "message_record =
     JDict [(''eventName'', JStr ''INSERT''),
            (''dynamodb'', JDict [(''NewImage'',
               JDict [(''conversationId'', JDict [(''S'', JStr ''user-1#user-2'')]),
                      (''senderId'', JDict [(''S'', JStr ''user-456'')]),
                      (''messageText'', JDict [(''S'', JStr ''Hello!'')])])]),
            (''eventSourceARN'', JStr messages_arn)]"

definition modify_record :: json where
  "modify_record =
     JDict [(''eventName'', JStr ''MODIFY''),
            (''dynamodb'', JDict [(''NewImage'',
               JDict [(''userId'', JDict [(''S'', JStr ''user-1'')])])]),
            (''eventSourceARN'', JStr comments_arn)]"

definition letters_arn :: string where
  "letters_arn = ''arn:aws:dynamodb:us-east-1:123456789012:table/hold-that-thought-letters/stream/2024-01-01T00:00:00.000''"

definition letter_record :: json where
  "letter_record =
     JDict [(''eventName'', JStr ''INSERT''),
            (''dynamodb'', JDict [(''NewImage'',
               JDict [(''userId'', JDict [(''S'', JStr ''user-123'')])])]),
            (''eventSourceARN'', JStr letters_arn)]"

text \<open>A comment event whose new image lacks the user id: processing it raises.\<close>

definition anonymous_comment_record :: json where
  "anonymous_comment_record =
     JDict [(''eventName'', JStr ''INSERT''),
            (''dynamodb'', JDict [(''NewImage'',
               JDict [(''commentText'', JDict [(''S'', JStr ''Who wrote this?'')])])]),
            (''eventSourceARN'', JStr comments_arn)]"

text \<open>A message event whose new image names no sender.\<close>

definition senderless_message_record :: json where
  "senderless_message_record =
     JDict [(''eventName'', JStr ''INSERT''),
            (''dynamodb'', JDict [(''NewImage'',
               JDict [(''conversationId'', JDict [(''S'', JStr ''user-1#user-2'')]),
                      (''messageText'', JDict [(''S'', JStr ''Hello!'')])])]),
            (''eventSourceARN'', JStr messages_arn)]"

text \<open>A message event whose sender field is there and holds the empty string.\<close>

definition empty_sender_message_record :: json where
  "empty_sender_message_record =
     JDict [(''eventName'', JStr ''INSERT''),
            (''dynamodb'', JDict [(''NewImage'',
               JDict [(''conversationId'', JDict [(''S'', JStr ''user-1#user-2'')]),
                      (''senderId'', JDict [(''S'', JStr [])]),
                      (''messageText'', JDict [(''S'', JStr ''Hello!'')])])]),
            (''eventSourceARN'', JStr messages_arn)]"

text \<open>The reaction event of the notification processor's tests, and an idle SES client.\<close>

definition reactions_arn :: string where
  "reactions_arn = ''arn:aws:dynamodb:us-east-1:123456789012:table/hold-that-thought-comment-reactions/stream/2024-01-01T00:00:00.000''"

definition reaction_record :: json where
  "reaction_record =
     JDict [(''eventName'', JStr ''INSERT''),
            (''dynamodb'', JDict [(''NewImage'',
               JDict [(''commentId'', JDict [(''S'', JStr ''2025-01-15T10:00:00.000Z#abc'')]),
                      (''userId'', JDict [(''S'', JStr ''user-456'')]),
                      (''reactionType'', JDict [(''S'', JStr ''like'')]),
                      (''createdAt'', JDict [(''S'', JStr ''2025-01-15T11:00:00.000Z'')])])]),
            (''eventSourceARN'', JStr reactions_arn)]"

definition np_world_example :: np_world where
  "np_world_example = \<lparr>ses_calls = [], np_out = []\<rparr>"
section \<open>The deployer's poll phase\<close>

lemma get_job_frame:
  "jobs (snd (get_job a b j w)) = jobs w \<and> helper_data (snd (get_job a b j w)) = helper_data w"
  by (cases "(a, b, j, w)" rule: get_job.cases) (simp_all add: Let_def split: option.splits)

lemma get_job_calls:
  "api_calls (snd (get_job a b j w)) = api_calls w \<or>
   (\<exists>x y z. api_calls (snd (get_job a b j w)) = api_calls w @ [GetJob x y z])"
  by (cases "(a, b, j, w)" rule: get_job.cases) (simp_all add: Let_def split: option.splits)

lemma get_job_reads_jobs:
  "jobs w' = jobs w \<Longrightarrow> fst (get_job a b j w') = fst (get_job a b j w)"
  by (cases "(a, b, j, w)" rule: get_job.cases) (simp_all add: Let_def split: option.splits)


lemma poll_frame:
  "jobs (snd (poll event w)) = jobs w \<and> helper_data (snd (poll event w)) = helper_data w"
proof (cases "poll_args event")
  case (Inl e)
  then show ?thesis by (simp add: poll_def)
next
  case (Inr args)
  obtain a b j where args: "args = (a, b, j)" by (cases args) auto
  obtain res w1 where g: "get_job a b j w = (res, w1)" by (cases "get_job a b j w") auto
  from get_job_frame [of a b j w] g
  have "jobs w1 = jobs w" "helper_data w1 = helper_data w" by simp_all
  with Inr args g show ?thesis by (cases res) (simp_all add: poll_def)
qed

lemma poll_calls:
  "api_calls (snd (poll event w)) = api_calls w \<or>
   (\<exists>x y z. api_calls (snd (poll event w)) = api_calls w @ [GetJob x y z])"
proof (cases "poll_args event")
  case (Inl e)
  then show ?thesis by (simp add: poll_def)
next
  case (Inr args)
  obtain a b j where args: "args = (a, b, j)" by (cases args) auto
  obtain res w1 where g: "get_job a b j w = (res, w1)" by (cases "get_job a b j w") auto
  from get_job_calls [of a b j w] g
  have "api_calls w1 = api_calls w \<or> (\<exists>x y z. api_calls w1 = api_calls w @ [GetJob x y z])"
    by simp
  with Inr args g show ?thesis by (cases res) (simp_all add: poll_def)
qed

lemma poll_reads_jobs:
  assumes "jobs w' = jobs w"
  shows "fst (poll event w') = fst (poll event w)"
proof (cases "poll_args event")
  case (Inl e)
  then show ?thesis by (simp add: poll_def)
next
  case (Inr args)
  obtain a b j where args: "args = (a, b, j)" by (cases args) auto
  obtain res w1 where g: "get_job a b j w = (res, w1)" by (cases "get_job a b j w") auto
  obtain res' w1' where g': "get_job a b j w' = (res', w1')" by (cases "get_job a b j w'") auto
  from get_job_reads_jobs [OF assms, of a b j] g g' have "res' = res" by simp
  with Inr args g g' show ?thesis by (cases res) (simp_all add: poll_def)
qed


text \<open>
  Claim C2. One invocation of \<open>poll\<close> that reads the job's identifiers and is
  answered the status \<open>status\<close>: \<open>"SUCCEED"\<close> makes it return \<open>True\<close>; \<open>"PENDING"\<close>,
  \<open>"PROVISIONING"\<close> and \<open>"RUNNING"\<close> make it return \<open>None\<close>, without raising; any
  other status makes it raise a \<open>RuntimeError\<close> whose message carries that status.
\<close>

theorem poll_outcome:
  assumes "poll_args event = Inr (app_id, branch_name, job_id)"
    and "fst (get_job app_id branch_name job_id w) = Inr status"
  shows "(status = ''SUCCEED'' \<longrightarrow> fst (poll event w) = Inr (JBool True)) \<and>
         (status = ''PENDING'' \<or> status = ''PROVISIONING'' \<or> status = ''RUNNING'' \<longrightarrow>
            fst (poll event w) = Inr JNull) \<and>
         (status \<noteq> ''SUCCEED'' \<and> status \<noteq> ''PENDING'' \<and> status \<noteq> ''PROVISIONING'' \<and>
          status \<noteq> ''RUNNING'' \<longrightarrow>
            fst (poll event w) = Inl (RuntimeError (''Deployment failed: '' @ status)))"
proof -
  obtain res w1 where g: "get_job app_id branch_name job_id w = (res, w1)"
    by (cases "get_job app_id branch_name job_id w") auto
  with assms(2) have "res = Inr status" by simp
  with assms(1) g have "fst (poll event w) = poll_verdict status"
    by (simp add: poll_def)
  then show ?thesis by (simp add: poll_verdict_def)
qed

lemma poll_args_example:
  "poll_args poll_event_example = Inr (JStr ''d1a2b3c4'', JStr ''main'', JStr ''7'')"
  by (simp add: poll_args_def poll_event_example_def)

lemma get_job_example:
  "fst (get_job (JStr ''d1a2b3c4'') (JStr ''main'') (JStr ''7'') (ad_world_example s)) = Inr s"
  by (simp add: ad_world_example_def Let_def)

theorem poll_outcome_witness:
  "fst (poll poll_event_example (ad_world_example ''SUCCEED'')) = Inr (JBool True) \<and>
   fst (poll poll_event_example (ad_world_example ''RUNNING'')) = Inr JNull \<and>
   fst (poll poll_event_example (ad_world_example ''FAILED'')) =
     Inl (RuntimeError ''Deployment failed: FAILED'')"
  using poll_outcome [OF poll_args_example get_job_example [of "''SUCCEED''"]]
    poll_outcome [OF poll_args_example get_job_example [of "''RUNNING''"]]
    poll_outcome [OF poll_args_example get_job_example [of "''FAILED''"]]
  by simp

text \<open>
  Claim C8. Every invocation of \<open>poll\<close>, whatever the event and the outcome, leaves
  the jobs of the service and the helper's data as they were; the only request it may
  send is one \<open>get_job\<close>; and invoking it again on the state it left gives the same
  outcome.
\<close>

theorem poll_side_effect_free:
  "jobs (snd (poll event w)) = jobs w \<and>
   helper_data (snd (poll event w)) = helper_data w \<and>
   (api_calls (snd (poll event w)) = api_calls w \<or>
    (\<exists>a b j. api_calls (snd (poll event w)) = api_calls w @ [GetJob a b j])) \<and>
   fst (poll event (snd (poll event w))) = fst (poll event w)"
proof -
  have "jobs (snd (poll event w)) = jobs w" using poll_frame [of event w] by simp
  then have "fst (poll event (snd (poll event w))) = fst (poll event w)"
    by (rule poll_reads_jobs)
  with poll_frame [of event w] poll_calls [of event w] show ?thesis by simp
qed


section \<open>The activity aggregator\<close>

lemma update_item_calls: "calls (snd (update_item env req w)) = calls w @ [req]"
  by (simp add: update_item_def Let_def split: sum.splits)

lemma update_item_items:
  "items (snd (update_item env req w)) =
     (if store_up env (length (calls w))
      then (case apply_request req (items w) of Inl e \<Rightarrow> items w | Inr m \<Rightarrow> m)
      else items w)"
  by (simp add: update_item_def Let_def split: sum.splits)

lemma increment_returns: "fst (increment_comment_count env uid w) = Inr ()"
  by (simp add: increment_comment_count_def split: prod.splits sum.splits)

lemma increment_calls:
  "calls (snd (increment_comment_count env uid w)) = calls w @ [AddCommentCount uid 1]"
  using update_item_calls [of env "AddCommentCount uid 1" w]
  by (auto simp add: increment_comment_count_def split: prod.splits sum.splits)

lemma increment_items:
  "items (snd (increment_comment_count env uid w)) =
     (if store_up env (length (calls w))
      then (case apply_request (AddCommentCount uid 1) (items w) of
              Inl e \<Rightarrow> items w | Inr m \<Rightarrow> m)
      else items w)"
  using update_item_items [of env "AddCommentCount uid 1" w]
  by (auto simp add: increment_comment_count_def split: prod.splits sum.splits)

lemma update_last_active_returns: "fst (update_last_active env uid w) = Inr ()"
  by (simp add: update_last_active_def Let_def split: prod.splits sum.splits)

lemma update_last_active_calls:
  "calls (snd (update_last_active env uid w)) =
     calls w @ [SetLastActive uid (utcnow_iso env (length (calls w)) @ ''Z'')]"
  using update_item_calls [of env "SetLastActive uid (utcnow_iso env (length (calls w)) @ ''Z'')" w]
  by (auto simp add: update_last_active_def Let_def split: prod.splits sum.splits)

lemma update_last_active_items:
  "items (snd (update_last_active env uid w)) =
     (if store_up env (length (calls w))
      then (case apply_request (SetLastActive uid (utcnow_iso env (length (calls w)) @ ''Z''))
                  (items w) of
              Inl e \<Rightarrow> items w | Inr m \<Rightarrow> m)
      else items w)"
  using update_item_items [of env "SetLastActive uid (utcnow_iso env (length (calls w)) @ ''Z'')" w]
  by (auto simp add: update_last_active_def Let_def split: prod.splits sum.splits)

lemma process_outcome_fixed:
  "fst (au_process_insert_event env r w) = fst (au_process_insert_event env' r w')"
  by (simp add: au_process_insert_event_def case_prod_beta increment_returns
      update_last_active_returns split: sum.splits branch.splits)

lemma process_raise_or_return:
  "fst (au_process_insert_event env r w) = Inr () \<or>
   (\<exists>e. au_process_insert_event env r w = (Inl e, w))"
  by (simp add: au_process_insert_event_def case_prod_beta increment_returns
      update_last_active_returns prod_eq_iff split: sum.splits branch.splits)

lemma process_comment:
  assumes "table_name_of r = Inr tn" "new_image_of r = Inr img" "au_branch tn = Comment"
    "attr_S img ''userId'' = Inr uid"
  shows "au_process_insert_event env r w =
           update_last_active env uid (snd (increment_comment_count env uid w))"
  using assms
  by (simp add: au_process_insert_event_def case_prod_beta increment_returns)

lemma comment_record_table:
  "table_name_of comment_record = Inr ''hold-that-thought-comments''"
  by (simp add: table_name_of_def comment_record_def comments_arn_def py_split_def
      py_index_def split_at.simps)

lemma comments_branch: "au_branch ''hold-that-thought-comments'' = Comment"
  by (simp add: au_branch_def lower_def lower_char_def)

lemma comment_record_image:
  "new_image_of comment_record =
     Inr (JDict [(''userId'', JDict [(''S'', JStr ''user-123'')]),
                 (''commentText'', JDict [(''S'', JStr ''Great letter!'')])])"
  by (simp add: new_image_of_def comment_record_def)

lemma comment_record_user:
  "attr_S (JDict [(''userId'', JDict [(''S'', JStr ''user-123'')]),
                 (''commentText'', JDict [(''S'', JStr ''Great letter!'')])]) ''userId'' =
     Inr (JStr ''user-123'')"
  by (simp add: attr_S_def)

text \<open>
  Claim C10. \<open>increment_comment_count\<close> and \<open>update_last_active\<close> return normally
  whatever the store does. Hence whether \<open>process_insert_event\<close> raises on a record
  does not depend on the store; and on a comment event that carries a user id it returns
  normally after sending both requests, the counter increment and then the last-active
  update, whether or not the increment was accepted.
\<close>

theorem helpers_never_raise:
  "fst (increment_comment_count env uid w) = Inr () \<and>
   fst (update_last_active env uid w) = Inr () \<and>
   fst (au_process_insert_event env r w) = fst (au_process_insert_event env' r w) \<and>
   (table_name_of r = Inr tn \<and> new_image_of r = Inr img \<and> au_branch tn = Comment \<and>
    attr_S img ''userId'' = Inr uid \<longrightarrow>
      fst (au_process_insert_event env r w) = Inr () \<and>
      calls (snd (au_process_insert_event env r w)) =
        calls w @ [AddCommentCount uid 1,
                   SetLastActive uid (utcnow_iso env (Suc (length (calls w))) @ ''Z'')])"
proof -
  have "fst (au_process_insert_event env r w) = Inr () \<and>
        calls (snd (au_process_insert_event env r w)) =
          calls w @ [AddCommentCount uid 1,
                     SetLastActive uid (utcnow_iso env (Suc (length (calls w))) @ ''Z'')]"
    if "table_name_of r = Inr tn" "new_image_of r = Inr img" "au_branch tn = Comment"
      "attr_S img ''userId'' = Inr uid"
    using process_comment [OF that, of env w]
    by (simp add: update_last_active_returns update_last_active_calls increment_calls)
  then show ?thesis
    using increment_returns [of env uid w] update_last_active_returns [of env uid w]
      process_outcome_fixed [of env r w env' w]
    by blast
qed


theorem helpers_never_raise_witness:
  "fst (increment_comment_count env_down (JStr ''user-123'') au_world_example) = Inr () \<and>
   fst (update_last_active env_down (JStr ''user-123'') au_world_example) = Inr () \<and>
   fst (au_process_insert_event env_down comment_record au_world_example) = Inr () \<and>
   calls (snd (au_process_insert_event env_down comment_record au_world_example)) =
     [AddCommentCount (JStr ''user-123'') 1,
      SetLastActive (JStr ''user-123'') ''2025-01-15T10:00:00.000000Z'']"
  using helpers_never_raise [of env_down "JStr ''user-123''" au_world_example comment_record
      env_down "''hold-that-thought-comments''"
      "JDict [(''userId'', JDict [(''S'', JStr ''user-123'')]),
              (''commentText'', JDict [(''S'', JStr ''Great letter!'')])]"]
    comment_record_table comment_record_image comments_branch comment_record_user
  by (simp add: env_down_def au_world_example_def fixed_clock_def)

lemma count_after_add:
  "count_of (m(u \<mapsto> (profile_of m u)\<lparr>commentCount := Some (count_of m u + d)\<rparr>)) u =
     count_of m u + d"
  by (simp add: count_of_def profile_of_def)

lemma set_last_active_keeps_count:
  "apply_request (SetLastActive k ts) m = Inr m' \<Longrightarrow>
     commentCount (profile_of m' u) = commentCount (profile_of m u)"
  by (cases k) (auto simp add: profile_of_def)

lemma set_last_active_count_of:
  "apply_request (SetLastActive k ts) m = Inr m' \<Longrightarrow> count_of m' u = count_of m u"
  by (simp add: count_of_def set_last_active_keeps_count)

lemma update_last_active_keeps_count:
  "commentCount (profile_of (items (snd (update_last_active env uid w))) u) =
     commentCount (profile_of (items w) u)"
  by (simp add: update_last_active_items set_last_active_keeps_count split: sum.splits)

lemma update_last_active_count_of:
  "count_of (items (snd (update_last_active env uid w))) u = count_of (items w) u"
  by (simp add: count_of_def update_last_active_keeps_count)

lemma update_last_active_sets:
  "store_up env (length (calls w)) \<Longrightarrow>
     lastActive (profile_of (items (snd (update_last_active env (JStr u) w))) u) =
       Some (utcnow_iso env (length (calls w)) @ ''Z'')"
  by (simp add: update_last_active_items profile_of_def)

lemma update_last_active_others:
  "v \<noteq> u \<Longrightarrow> items (snd (update_last_active env (JStr u) w)) v = items w v"
  by (simp add: update_last_active_items)

text \<open>
  Claim C4, as amended. On an insert event routed to the comment branch whose new image
  carries the string user id \<open>u\<close>: if the store accepts the increment, the counter of
  \<open>u\<close> grows by exactly 1; if the store accepts the update that follows, the last-active
  attribute of \<open>u\<close> is the clock reading followed by \<open>Z\<close>.
\<close>

theorem comment_event_effect:
  assumes "table_name_of r = Inr tn" and "new_image_of r = Inr img"
    and "au_branch tn = Comment" and "attr_S img ''userId'' = Inr (JStr u)"
  shows "(store_up env (length (calls w)) \<longrightarrow>
            count_of (items (snd (au_process_insert_event env r w))) u =
              count_of (items w) u + 1) \<and>
         (store_up env (Suc (length (calls w))) \<longrightarrow>
            lastActive (profile_of (items (snd (au_process_insert_event env r w))) u) =
              Some (utcnow_iso env (Suc (length (calls w))) @ ''Z''))"
proof -
  let ?w1 = "snd (increment_comment_count env (JStr u) w)"
  have step: "au_process_insert_event env r w = update_last_active env (JStr u) ?w1"
    using assms by (rule process_comment)
  have len: "length (calls ?w1) = Suc (length (calls w))"
    by (simp add: increment_calls)
  have "count_of (items ?w1) u = count_of (items w) u + 1"
    if "store_up env (length (calls w))"
    using that by (simp add: increment_items count_after_add)
  moreover have "lastActive (profile_of (items (snd (update_last_active env (JStr u) ?w1))) u) =
                   Some (utcnow_iso env (Suc (length (calls w))) @ ''Z'')"
    if "store_up env (Suc (length (calls w)))"
    using that update_last_active_sets [of env ?w1 u] len by simp
  ultimately show ?thesis
    by (simp add: step update_last_active_count_of)
qed

theorem comment_event_effect_witness:
  "count_of (items (snd (au_process_insert_event env_up comment_record au_world_example)))
     ''user-123'' = 1 \<and>
   lastActive (profile_of (items (snd (au_process_insert_event env_up comment_record
     au_world_example))) ''user-123'') = Some ''2025-01-15T10:00:00.000000Z''"
  using comment_event_effect [OF comment_record_table comment_record_image comments_branch
      comment_record_user, of env_up au_world_example]
  by (simp add: env_up_def always_up_def fixed_clock_def au_world_example_def
      profiles_example_def count_of_def profile_of_def)

text \<open>
  The claim without the condition on the store fails: the record below is routed to the
  comment branch, the store rejects both requests, the handler catches the failures, and
  the counter of \<open>user-123\<close> is not increased and no timestamp is set.
\<close>

theorem comment_counter_counterexample:
  "table_name_of comment_record = Inr ''hold-that-thought-comments'' \<and>
   au_branch ''hold-that-thought-comments'' = Comment \<and>
   count_of (items (snd (au_process_insert_event env_down comment_record au_world_example)))
     ''user-123'' \<noteq> count_of (items au_world_example) ''user-123'' + 1 \<and>
   lastActive (profile_of (items (snd (au_process_insert_event env_down comment_record
     au_world_example))) ''user-123'') = None"
proof -
  have "items (snd (au_process_insert_event env_down comment_record au_world_example)) =
          items au_world_example"
    by (simp add: process_comment [OF comment_record_table comment_record_image
          comments_branch comment_record_user]
        update_last_active_items increment_items increment_calls env_down_def always_down_def)
  then show ?thesis
    by (simp add: comment_record_table comments_branch au_world_example_def
        profiles_example_def count_of_def profile_of_def)
qed

lemma process_message:
  assumes "table_name_of r = Inr tn" "new_image_of r = Inr img" "au_branch tn = Message"
  shows "au_process_insert_event env r w =
           (case attr_S_or img ''senderId'' JNull of
              Inl e \<Rightarrow> (Inl e, w)
            | Inr sender_id \<Rightarrow>
                if py_truthy sender_id then update_last_active env sender_id w
                else (Inr (), w))"
  using assms by (simp add: au_process_insert_event_def)

lemma message_record_table:
  "table_name_of message_record = Inr ''hold-that-thought-messages''"
  by (simp add: table_name_of_def message_record_def messages_arn_def py_split_def
      py_index_def split_at.simps)

lemma messages_branch: "au_branch ''hold-that-thought-messages'' = Message"
  by (simp add: au_branch_def lower_def lower_char_def)

lemma message_record_image:
  "new_image_of message_record =
     Inr (JDict [(''conversationId'', JDict [(''S'', JStr ''user-1#user-2'')]),
                 (''senderId'', JDict [(''S'', JStr ''user-456'')]),
                 (''messageText'', JDict [(''S'', JStr ''Hello!'')])])"
  by (simp add: new_image_of_def message_record_def)

text \<open>
  Claim C5, as amended. On an insert event routed to the message branch, no user's
  comment counter changes. When the new image carries a non-empty sender id, the handler
  sends one request, the last-active update of that sender: no other user's item
  changes, and if the store accepts the request the sender's last-active attribute is
  the clock reading followed by \<open>Z\<close>. When the sender id is missing or empty, nothing
  is sent and the state is left as it was.
\<close>

theorem message_event_frame:
  assumes "table_name_of r = Inr tn" and "new_image_of r = Inr img"
    and "au_branch tn = Message"
  shows "(\<forall>u. commentCount (profile_of (items (snd (au_process_insert_event env r w))) u) =
               commentCount (profile_of (items w) u)) \<and>
         (\<forall>s. attr_S_or img ''senderId'' JNull = Inr (JStr s) \<and> s \<noteq> [] \<longrightarrow>
            calls (snd (au_process_insert_event env r w)) =
              calls w @ [SetLastActive (JStr s) (utcnow_iso env (length (calls w)) @ ''Z'')] \<and>
            (\<forall>v. v \<noteq> s \<longrightarrow> items (snd (au_process_insert_event env r w)) v = items w v) \<and>
            (store_up env (length (calls w)) \<longrightarrow>
               lastActive (profile_of (items (snd (au_process_insert_event env r w))) s) =
                 Some (utcnow_iso env (length (calls w)) @ ''Z''))) \<and>
         (\<forall>sender_id. attr_S_or img ''senderId'' JNull = Inr sender_id \<and>
            \<not> py_truthy sender_id \<longrightarrow>
            au_process_insert_event env r w = (Inr (), w))"
proof (intro conjI allI impI)
  fix u
  show "commentCount (profile_of (items (snd (au_process_insert_event env r w))) u) =
          commentCount (profile_of (items w) u)"
    by (simp add: process_message [OF assms] update_last_active_keeps_count split: sum.splits)
next
  fix s
  assume s: "attr_S_or img ''senderId'' JNull = Inr (JStr s) \<and> s \<noteq> []"
  then have step: "au_process_insert_event env r w = update_last_active env (JStr s) w"
    by (simp add: process_message [OF assms])
  show "calls (snd (au_process_insert_event env r w)) =
          calls w @ [SetLastActive (JStr s) (utcnow_iso env (length (calls w)) @ ''Z'')]"
    by (simp add: step update_last_active_calls)
  show "items (snd (au_process_insert_event env r w)) v = items w v" if "v \<noteq> s" for v
    using that by (simp add: step update_last_active_others)
  show "lastActive (profile_of (items (snd (au_process_insert_event env r w))) s) =
          Some (utcnow_iso env (length (calls w)) @ ''Z'')"
    if "store_up env (length (calls w))"
    using that by (simp add: step update_last_active_sets)
next
  fix sender_id
  assume "attr_S_or img ''senderId'' JNull = Inr sender_id \<and> \<not> py_truthy sender_id"
  then show "au_process_insert_event env r w = (Inr (), w)"
    by (simp add: process_message [OF assms])
qed

lemma senderless_message_record_table:
  "table_name_of senderless_message_record = Inr ''hold-that-thought-messages''"
  by (simp add: table_name_of_def senderless_message_record_def messages_arn_def py_split_def
      py_index_def split_at.simps)

lemma senderless_message_record_image:
  "new_image_of senderless_message_record =
     Inr (JDict [(''conversationId'', JDict [(''S'', JStr ''user-1#user-2'')]),
                 (''messageText'', JDict [(''S'', JStr ''Hello!'')])])"
  by (simp add: new_image_of_def senderless_message_record_def)

lemma message_record_sender:
  "attr_S_or (JDict [(''conversationId'', JDict [(''S'', JStr ''user-1#user-2'')]),
                    (''senderId'', JDict [(''S'', JStr ''user-456'')]),
                    (''messageText'', JDict [(''S'', JStr ''Hello!'')])]) ''senderId'' JNull =
     Inr (JStr ''user-456'')"
  by (simp add: attr_S_or_def)

theorem message_event_frame_witness:
  "calls (snd (au_process_insert_event env_up message_record au_world_example)) =
     [SetLastActive (JStr ''user-456'') ''2025-01-15T10:00:00.000000Z''] \<and>
   lastActive (profile_of (items (snd (au_process_insert_event env_up message_record
     au_world_example))) ''user-456'') = Some ''2025-01-15T10:00:00.000000Z'' \<and>
   commentCount (profile_of (items (snd (au_process_insert_event env_up message_record
     au_world_example))) ''user-123'') = Some 0 \<and>
   items (snd (au_process_insert_event env_up message_record au_world_example)) ''user-123'' =
     Some \<lparr>commentCount = Some 0, lastActive = None\<rparr> \<and>
   au_process_insert_event env_up senderless_message_record au_world_example =
     (Inr (), au_world_example)"
proof -
  note present = message_event_frame [OF message_record_table message_record_image
      messages_branch, of env_up au_world_example]
  note absent = message_event_frame [OF senderless_message_record_table
      senderless_message_record_image messages_branch, of env_up au_world_example]
  have sender: "attr_S_or (JDict [(''conversationId'', JDict [(''S'', JStr ''user-1#user-2'')]),
                 (''senderId'', JDict [(''S'', JStr ''user-456'')]),
                 (''messageText'', JDict [(''S'', JStr ''Hello!'')])]) ''senderId'' JNull =
                Inr (JStr ''user-456'') \<and> ''user-456'' \<noteq> []"
    by (simp add: message_record_sender)
  have nosender: "attr_S_or (JDict [(''conversationId'', JDict [(''S'', JStr ''user-1#user-2'')]),
                 (''messageText'', JDict [(''S'', JStr ''Hello!'')])]) ''senderId'' JNull =
                Inr JNull \<and> \<not> py_truthy JNull"
    by (simp add: attr_S_or_def)
  from present [THEN conjunct1, THEN spec, of "''user-123''"]
    present [THEN conjunct2, THEN conjunct1, THEN spec, THEN mp, OF sender]
    absent [THEN conjunct2, THEN conjunct2, THEN spec, THEN mp, OF nosender]
  show ?thesis
    by (simp add: env_up_def always_up_def fixed_clock_def au_world_example_def
        profiles_example_def profile_of_def)
qed

text \<open>
  The claim as first stated fails in two ways. The record \<open>message_record\<close> names the
  sender \<open>user-456\<close>, the store rejects the request, the handler catches the failure,
  and the sender has no timestamp afterwards. The record
  \<open>empty_sender_message_record\<close> has the sender field, holding the empty string, which
  \<^verbatim>\<open>if sender_id:\<close> takes for no sender: nothing is sent although the store is up.
\<close>

theorem message_timestamp_counterexample:
  "table_name_of message_record = Inr ''hold-that-thought-messages'' \<and>
   table_name_of empty_sender_message_record = Inr ''hold-that-thought-messages'' \<and>
   au_branch ''hold-that-thought-messages'' = Message \<and>
   lastActive (profile_of (items (snd (au_process_insert_event env_down message_record
     au_world_example))) ''user-456'') = None \<and>
   new_image_of empty_sender_message_record =
     Inr (JDict [(''conversationId'', JDict [(''S'', JStr ''user-1#user-2'')]),
                 (''senderId'', JDict [(''S'', JStr [])]),
                 (''messageText'', JDict [(''S'', JStr ''Hello!'')])]) \<and>
   au_process_insert_event env_up empty_sender_message_record au_world_example =
     (Inr (), au_world_example)"
proof -
  have table: "table_name_of empty_sender_message_record = Inr ''hold-that-thought-messages''"
    by (simp add: table_name_of_def empty_sender_message_record_def messages_arn_def
        py_split_def py_index_def split_at.simps)
  have image: "new_image_of empty_sender_message_record =
     Inr (JDict [(''conversationId'', JDict [(''S'', JStr ''user-1#user-2'')]),
                 (''senderId'', JDict [(''S'', JStr [])]),
                 (''messageText'', JDict [(''S'', JStr ''Hello!'')])])"
    by (simp add: new_image_of_def empty_sender_message_record_def)
  have empty: "au_process_insert_event env_up empty_sender_message_record au_world_example =
                 (Inr (), au_world_example)"
    by (simp add: process_message [OF table image messages_branch] attr_S_or_def)
  have "au_process_insert_event env_down message_record au_world_example =
          update_last_active env_down (JStr ''user-456'') au_world_example"
    by (simp add: process_message [OF message_record_table message_record_image
          messages_branch] message_record_sender)
  then have "items (snd (au_process_insert_event env_down message_record au_world_example)) =
               items au_world_example"
    by (simp add: update_last_active_items env_down_def always_down_def)
  then have down: "lastActive (profile_of (items (snd (au_process_insert_event env_down
      message_record au_world_example))) ''user-456'') = None"
    by (simp add: au_world_example_def profiles_example_def profile_of_def no_profile_def)
  from table image empty down message_record_table messages_branch show ?thesis by simp
qed

lemma au_record_skips:
  "py_getitem r ''eventName'' \<noteq> Inr (JStr ''INSERT'') \<Longrightarrow>
     store_view (au_record env r w) = store_view w"
  by (simp add: au_record_def store_view_def split: sum.splits)

lemma au_records_skip:
  "\<forall>r \<in> set rs. py_getitem r ''eventName'' \<noteq> Inr (JStr ''INSERT'') \<Longrightarrow>
     store_view (au_records env rs w) = store_view w"
proof (induction rs arbitrary: w)
  case Nil
  show ?case by simp
next
  case (Cons r rs)
  then have "store_view (au_records env rs (au_record env r w)) = store_view (au_record env r w)"
    by simp
  with Cons.prems show ?case by (simp add: au_record_skips)
qed

lemma au_handler_ack:
  "and_then (py_getitem event ''Records'') py_iter = Inr rs \<Longrightarrow>
     au_lambda_handler env event w =
       (Inr au_ack, au_records env rs (w\<lparr>out := out w @ [Processing (length rs)]\<rparr>))"
  by (simp add: au_lambda_handler_def)

text \<open>
  Claim C6. On a batch in which no record's operation is \<open>INSERT\<close>, the handler
  returns its acknowledgement, and the items of the table and the requests sent to it
  are what they were before.
\<close>

theorem non_insert_batch_untouched:
  assumes "and_then (py_getitem event ''Records'') py_iter = Inr rs"
    and "\<forall>r \<in> set rs. py_getitem r ''eventName'' \<noteq> Inr (JStr ''INSERT'')"
  shows "fst (au_lambda_handler env event w) = Inr au_ack \<and>
         items (snd (au_lambda_handler env event w)) = items w \<and>
         calls (snd (au_lambda_handler env event w)) = calls w"
proof -
  have "store_view (snd (au_lambda_handler env event w)) =
          store_view (w\<lparr>out := out w @ [Processing (length rs)]\<rparr>)"
    using assms by (simp add: au_handler_ack au_records_skip)
  then show ?thesis using assms(1) by (simp add: au_handler_ack store_view_def)
qed

theorem non_insert_batch_untouched_witness:
  "fst (au_lambda_handler env_up (JDict [(''Records'', JList [modify_record])])
     au_world_example) = Inr au_ack \<and>
   items (snd (au_lambda_handler env_up (JDict [(''Records'', JList [modify_record])])
     au_world_example)) = items au_world_example \<and>
   calls (snd (au_lambda_handler env_up (JDict [(''Records'', JList [modify_record])])
     au_world_example)) = calls au_world_example"
proof -
  have recs: "and_then (py_getitem (JDict [(''Records'', JList [modify_record])]) ''Records'')
                py_iter = Inr [modify_record]"
    by simp
  have kind: "\<forall>r \<in> set [modify_record]. py_getitem r ''eventName'' \<noteq> Inr (JStr ''INSERT'')"
    by (simp add: modify_record_def)
  from non_insert_batch_untouched [OF recs kind] show ?thesis .
qed


lemma au_records_append:
  "au_records env (xs @ ys) w = au_records env ys (au_records env xs w)"
  by (induction xs arbitrary: w) simp_all

lemma process_no_branch:
  assumes "table_name_of r = Inr tn" "new_image_of r = Inr img" "au_branch tn = NoBranch"
  shows "au_process_insert_event env r w = (Inr (), w)"
  using assms by (simp add: au_process_insert_event_def)

lemma letter_record_table:
  "table_name_of letter_record = Inr ''hold-that-thought-letters''"
  by (simp add: table_name_of_def letter_record_def letters_arn_def py_split_def
      py_index_def split_at.simps)

lemma letter_record_image:
  "new_image_of letter_record = Inr (JDict [(''userId'', JDict [(''S'', JStr ''user-123'')])])"
  by (simp add: new_image_of_def letter_record_def)

lemma letters_unmatched:
  "\<not> py_in ''comment'' (lower ''hold-that-thought-letters'') \<and>
   \<not> py_in ''message'' (lower ''hold-that-thought-letters'') \<and>
   \<not> py_in ''reaction'' (lower ''hold-that-thought-letters'')"
  by (simp add: lower_def lower_char_def)

text \<open>
  Claim C9. An insert event with a new image whose table name, in lower case, contains
  none of \<open>comment\<close>, \<open>message\<close> and \<open>reaction\<close> is ignored:
  \<open>process_insert_event\<close> returns normally and changes nothing, the loop prints no
  error for it, and a batch runs as it would without the record.
\<close>

theorem unrecognized_table_ignored:
  assumes "py_getitem r ''eventName'' = Inr (JStr ''INSERT'')"
    and "table_name_of r = Inr tn" and "new_image_of r = Inr img"
    and "\<not> py_in ''comment'' (lower tn) \<and> \<not> py_in ''message'' (lower tn) \<and>
         \<not> py_in ''reaction'' (lower tn)"
  shows "au_process_insert_event env r w = (Inr (), w) \<and>
         au_record env r w = w \<and>
         au_records env (rs1 @ r # rs2) w = au_records env (rs1 @ rs2) w"
proof -
  from assms(4) have none: "au_branch tn = NoBranch" by (simp add: au_branch_def)
  have p: "au_process_insert_event env r v = (Inr (), v)" for v
    using assms(2,3) none by (rule process_no_branch)
  have q: "au_record env r v = v" for v
    using assms(1) by (simp add: au_record_def p)
  show ?thesis by (simp add: p q au_records_append)
qed

theorem unrecognized_table_ignored_witness:
  "au_process_insert_event env_up letter_record au_world_example = (Inr (), au_world_example) \<and>
   au_record env_up letter_record au_world_example = au_world_example \<and>
   au_records env_up [comment_record, letter_record, message_record] au_world_example =
     au_records env_up [comment_record, message_record] au_world_example"
proof -
  have ins: "py_getitem letter_record ''eventName'' = Inr (JStr ''INSERT'')"
    by (simp add: letter_record_def)
  from unrecognized_table_ignored [OF ins letter_record_table letter_record_image
      letters_unmatched, of env_up au_world_example "[comment_record]" "[message_record]"]
  show ?thesis by simp
qed

lemma increment_view:
  "store_view w = store_view w' \<Longrightarrow>
     store_view (snd (increment_comment_count env uid w)) =
     store_view (snd (increment_comment_count env uid w'))"
  by (simp add: store_view_def increment_items increment_calls split: sum.splits)

lemma update_last_active_view:
  "store_view w = store_view w' \<Longrightarrow>
     store_view (snd (update_last_active env uid w)) =
     store_view (snd (update_last_active env uid w'))"
  by (simp add: store_view_def update_last_active_items update_last_active_calls
      split: sum.splits)

lemma process_view:
  assumes "store_view w = store_view w'"
  shows "store_view (snd (au_process_insert_event env r w)) =
         store_view (snd (au_process_insert_event env r w'))"
  using assms update_last_active_view [OF assms]
    update_last_active_view [OF increment_view [OF assms]]
  by (simp add: au_process_insert_event_def case_prod_beta increment_returns
      split: sum.splits branch.splits)

lemma au_record_view:
  assumes "store_view w = store_view w'"
  shows "store_view (au_record env r w) = store_view (au_record env r w')"
proof -
  have "fst (au_process_insert_event env r w) = fst (au_process_insert_event env r w')"
    by (rule process_outcome_fixed)
  moreover have "store_view (v\<lparr>out := l\<rparr>) = store_view v" for v :: au_world and l
    by (simp add: store_view_def)
  ultimately show ?thesis
    using assms process_view [OF assms, of env r]
    by (simp add: au_record_def case_prod_beta split: sum.splits)
qed

lemma au_records_view:
  "store_view w = store_view w' \<Longrightarrow>
     store_view (au_records env rs w) = store_view (au_records env rs w')"
proof (induction rs arbitrary: w w')
  case Nil
  then show ?case by simp
next
  case (Cons r rs)
  from Cons.prems have "store_view (au_record env r w) = store_view (au_record env r w')"
    by (rule au_record_view)
  then have "store_view (au_records env rs (au_record env r w)) =
             store_view (au_records env rs (au_record env r w'))"
    by (rule Cons.IH)
  then show ?case by simp
qed

lemma au_fails_fixed: "au_fails env r w \<Longrightarrow> au_fails env r w'"
  using process_outcome_fixed [of env r w env w']
  by (simp add: au_fails_def split: sum.splits)

lemma au_record_failed:
  assumes "au_fails env r w"
  shows "store_view (au_record env r w) = store_view w"
proof (cases "py_getitem r ''eventName''")
  case (Inl e)
  then show ?thesis by (simp add: au_record_def store_view_def)
next
  case (Inr name)
  with assms have ins: "name = JStr ''INSERT''"
    and raised: "isl (fst (au_process_insert_event env r w))"
    by (simp_all add: au_fails_def)
  from raised process_raise_or_return [of env r w]
  obtain e where "au_process_insert_event env r w = (Inl e, w)" by auto
  with Inr ins show ?thesis by (simp add: au_record_def store_view_def)
qed

lemma au_records_drop_failed:
  assumes "au_fails env bad w"
  shows "store_view (au_records env (rs1 @ bad # rs2) w) =
         store_view (au_records env (rs1 @ rs2) w)"
proof -
  let ?w1 = "au_records env rs1 w"
  from assms have "au_fails env bad ?w1" by (rule au_fails_fixed)
  then have "store_view (au_record env bad ?w1) = store_view ?w1" by (rule au_record_failed)
  then have "store_view (au_records env rs2 (au_record env bad ?w1)) =
             store_view (au_records env rs2 ?w1)"
    by (rule au_records_view)
  then show ?thesis by (simp add: au_records_append)
qed

lemma comment_count_grows:
  assumes "table_name_of r = Inr tn" and "new_image_of r = Inr img"
    and "au_branch tn = Comment" and "attr_S img ''userId'' = Inr (JStr u)"
    and "store_up env (length (calls w))"
  shows "count_of (items (snd (au_process_insert_event env r w))) u = count_of (items w) u + 1"
  using assms(5)
  by (simp add: process_comment [OF assms(1-4)] update_last_active_count_of increment_items
      count_after_add)

lemma au_record_insert:
  "py_getitem r ''eventName'' = Inr (JStr ''INSERT'') \<Longrightarrow>
     store_view (au_record env r w) = store_view (snd (au_process_insert_event env r w))"
  by (simp add: au_record_def store_view_def case_prod_beta split: sum.splits)

lemma handler_view:
  "and_then (py_getitem event ''Records'') py_iter = Inr rs \<Longrightarrow>
     store_view (snd (au_lambda_handler env event w)) = store_view (au_records env rs w)"
proof -
  assume "and_then (py_getitem event ''Records'') py_iter = Inr rs"
  then have "snd (au_lambda_handler env event w) =
               au_records env rs (w\<lparr>out := out w @ [Processing (length rs)]\<rparr>)"
    by (simp add: au_handler_ack)
  moreover have "store_view (w\<lparr>out := out w @ [Processing (length rs)]\<rparr>) = store_view w"
    by (simp add: store_view_def)
  then have "store_view (au_records env rs (w\<lparr>out := out w @ [Processing (length rs)]\<rparr>)) =
             store_view (au_records env rs w)"
    by (rule au_records_view)
  ultimately show ?thesis by simp
qed

text \<open>
  Claim C3. The handler returns its acknowledgement for every batch. A record on which
  the loop's \<open>try\<close> block raises is caught and the other records are processed: the
  table ends up as if the failing record had not been in the batch. In a batch of one
  failing record and one comment event whose increment the store accepts, in either
  order, the acknowledgement is returned and the commenter's counter has grown by 1.
\<close>

theorem batch_survives_failures:
  "(and_then (py_getitem event ''Records'') py_iter = Inr rs \<longrightarrow>
      fst (au_lambda_handler env event w) = Inr au_ack) \<and>
   (and_then (py_getitem event ''Records'') py_iter = Inr (rs1 @ bad # rs2) \<and>
    au_fails env bad w \<longrightarrow>
      store_view (snd (au_lambda_handler env event w)) =
        store_view (au_records env (rs1 @ rs2) w)) \<and>
   (and_then (py_getitem event ''Records'') py_iter = Inr rs \<and>
    (rs = [bad, good] \<or> rs = [good, bad]) \<and> au_fails env bad w \<and>
    py_getitem good ''eventName'' = Inr (JStr ''INSERT'') \<and>
    table_name_of good = Inr tn \<and> new_image_of good = Inr img \<and> au_branch tn = Comment \<and>
    attr_S img ''userId'' = Inr (JStr u) \<and> store_up env (length (calls w)) \<longrightarrow>
      fst (au_lambda_handler env event w) = Inr au_ack \<and>
      count_of (items (snd (au_lambda_handler env event w))) u = count_of (items w) u + 1)"
proof (intro conjI impI)
  assume "and_then (py_getitem event ''Records'') py_iter = Inr rs"
  then show "fst (au_lambda_handler env event w) = Inr au_ack"
    by (simp add: au_handler_ack)
next
  assume h: "and_then (py_getitem event ''Records'') py_iter = Inr (rs1 @ bad # rs2) \<and>
             au_fails env bad w"
  then have recs: "and_then (py_getitem event ''Records'') py_iter = Inr (rs1 @ bad # rs2)"
    and bad: "au_fails env bad w"
    by simp_all
  have "store_view (snd (au_lambda_handler env event w)) =
          store_view (au_records env (rs1 @ bad # rs2) w)"
    using recs by (rule handler_view)
  also have "\<dots> = store_view (au_records env (rs1 @ rs2) w)"
    using bad by (rule au_records_drop_failed)
  finally show "store_view (snd (au_lambda_handler env event w)) =
                  store_view (au_records env (rs1 @ rs2) w)" .
next
  assume h: "and_then (py_getitem event ''Records'') py_iter = Inr rs \<and>
    (rs = [bad, good] \<or> rs = [good, bad]) \<and> au_fails env bad w \<and>
    py_getitem good ''eventName'' = Inr (JStr ''INSERT'') \<and>
    table_name_of good = Inr tn \<and> new_image_of good = Inr img \<and> au_branch tn = Comment \<and>
    attr_S img ''userId'' = Inr (JStr u) \<and> store_up env (length (calls w))"
  then have recs: "and_then (py_getitem event ''Records'') py_iter = Inr rs"
    and two: "rs = [bad, good] \<or> rs = [good, bad]"
    and bad: "au_fails env bad w"
    and ins: "py_getitem good ''eventName'' = Inr (JStr ''INSERT'')"
    and shape: "table_name_of good = Inr tn" "new_image_of good = Inr img"
      "au_branch tn = Comment" "attr_S img ''userId'' = Inr (JStr u)"
    and up: "store_up env (length (calls w))"
    by simp_all
  have first: "store_view (au_records env [bad, good] w) = store_view (au_records env [good] w)"
    using au_records_drop_failed [OF bad, of "[]" "[good]"] by simp
  have second: "store_view (au_records env [good, bad] w) = store_view (au_records env [good] w)"
    using au_records_drop_failed [OF bad, of "[good]" "[]"] by simp
  have "store_view (snd (au_lambda_handler env event w)) = store_view (au_records env rs w)"
    using recs by (rule handler_view)
  also from two first second have "\<dots> = store_view (au_records env [good] w)"
    by auto
  also have "\<dots> = store_view (snd (au_process_insert_event env good w))"
    using au_record_insert [OF ins, of env w] by simp
  finally have "items (snd (au_lambda_handler env event w)) =
                  items (snd (au_process_insert_event env good w))"
    by (simp add: store_view_def)
  moreover have "count_of (items (snd (au_process_insert_event env good w))) u =
                   count_of (items w) u + 1"
    using shape up by (rule comment_count_grows)
  ultimately show "count_of (items (snd (au_lambda_handler env event w))) u =
                     count_of (items w) u + 1"
    by simp
  show "fst (au_lambda_handler env event w) = Inr au_ack"
    using recs by (simp add: au_handler_ack)
qed

lemma anonymous_comment_fails: "au_fails env anonymous_comment_record w"
proof -
  have "table_name_of anonymous_comment_record = Inr ''hold-that-thought-comments''"
    by (simp add: table_name_of_def anonymous_comment_record_def comments_arn_def py_split_def
        py_index_def split_at.simps)
  moreover have "new_image_of anonymous_comment_record =
                   Inr (JDict [(''commentText'', JDict [(''S'', JStr ''Who wrote this?'')])])"
    by (simp add: new_image_of_def anonymous_comment_record_def)
  moreover have "py_getitem anonymous_comment_record ''eventName'' = Inr (JStr ''INSERT'')"
    by (simp add: anonymous_comment_record_def)
  ultimately show ?thesis
    by (simp add: au_fails_def au_process_insert_event_def comments_branch attr_S_def)
qed

theorem batch_survives_failures_witness:
  "fst (au_lambda_handler env_up
     (JDict [(''Records'', JList [anonymous_comment_record, comment_record])])
     au_world_example) = Inr au_ack \<and>
   store_view (snd (au_lambda_handler env_up
     (JDict [(''Records'', JList [anonymous_comment_record, comment_record])])
     au_world_example)) = store_view (au_records env_up [comment_record] au_world_example) \<and>
   count_of (items (snd (au_lambda_handler env_up
     (JDict [(''Records'', JList [anonymous_comment_record, comment_record])])
     au_world_example))) ''user-123'' = 1"
proof -
  let ?event = "JDict [(''Records'', JList [anonymous_comment_record, comment_record])]"
  note t = batch_survives_failures [of ?event "[anonymous_comment_record, comment_record]"
      env_up au_world_example "[]" anonymous_comment_record "[comment_record]" comment_record
      "''hold-that-thought-comments''"
      "JDict [(''userId'', JDict [(''S'', JStr ''user-123'')]),
              (''commentText'', JDict [(''S'', JStr ''Great letter!'')])]"
      "''user-123''"]
  have recs: "and_then (py_getitem ?event ''Records'') py_iter =
                Inr [anonymous_comment_record, comment_record]"
    by simp
  have recs': "and_then (py_getitem ?event ''Records'') py_iter =
                 Inr ([] @ anonymous_comment_record # [comment_record]) \<and>
               au_fails env_up anonymous_comment_record au_world_example"
    by (simp add: anonymous_comment_fails)
  have ins: "py_getitem comment_record ''eventName'' = Inr (JStr ''INSERT'')"
    by (simp add: comment_record_def)
  have up: "store_up env_up (length (calls au_world_example))"
    by (simp add: env_up_def always_up_def)
  have third: "and_then (py_getitem ?event ''Records'') py_iter =
        Inr [anonymous_comment_record, comment_record] \<and>
      ([anonymous_comment_record, comment_record] = [anonymous_comment_record, comment_record] \<or>
       [anonymous_comment_record, comment_record] = [comment_record, anonymous_comment_record]) \<and>
      au_fails env_up anonymous_comment_record au_world_example \<and>
      py_getitem comment_record ''eventName'' = Inr (JStr ''INSERT'') \<and>
      table_name_of comment_record = Inr ''hold-that-thought-comments'' \<and>
      new_image_of comment_record =
        Inr (JDict [(''userId'', JDict [(''S'', JStr ''user-123'')]),
                    (''commentText'', JDict [(''S'', JStr ''Great letter!'')])]) \<and>
      au_branch ''hold-that-thought-comments'' = Comment \<and>
      attr_S (JDict [(''userId'', JDict [(''S'', JStr ''user-123'')]),
                     (''commentText'', JDict [(''S'', JStr ''Great letter!'')])]) ''userId'' =
        Inr (JStr ''user-123'') \<and>
      store_up env_up (length (calls au_world_example))"
    using recs anonymous_comment_fails ins comment_record_table comment_record_image
      comments_branch comment_record_user up
    by simp
  from t [THEN conjunct1, THEN mp, OF recs]
    t [THEN conjunct2, THEN conjunct1, THEN mp, OF recs']
    t [THEN conjunct2, THEN conjunct2, THEN mp, OF third]
  show ?thesis
    by (simp add: au_world_example_def profiles_example_def count_of_def profile_of_def)
qed

section \<open>The notification processor\<close>

lemma comment_notification_effect:
  "process_comment_notification img w = (Inl e, w') \<Longrightarrow> w' = w"
  "process_comment_notification img w = (Inr u, w') \<Longrightarrow>
     \<exists>line. w' = w\<lparr>np_out := np_out w @ [line]\<rparr>"
  by (auto simp add: process_comment_notification_def split: sum.splits)

lemma reaction_notification_effect:
  "process_reaction_notification img w = (Inl e, w') \<Longrightarrow> w' = w"
  "process_reaction_notification img w = (Inr u, w') \<Longrightarrow>
     \<exists>line. w' = w\<lparr>np_out := np_out w @ [line]\<rparr>"
  by (auto simp add: process_reaction_notification_def split: sum.splits)

lemma message_notification_effect:
  "process_message_notification img w = (Inl e, w') \<Longrightarrow> w' = w"
  "process_message_notification img w = (Inr u, w') \<Longrightarrow>
     \<exists>line. w' = w\<lparr>np_out := np_out w @ [line]\<rparr>"
  by (auto simp add: process_message_notification_def split: sum.splits)

lemma np_process_effect:
  "snd (np_process_insert_event r w) = w \<or>
   (\<exists>line. snd (np_process_insert_event r w) = w\<lparr>np_out := np_out w @ [line]\<rparr>)"
proof (cases "table_name_of r")
  case (Inl e)
  then show ?thesis by (simp add: np_process_insert_event_def)
next
  case tn: (Inr table_name)
  show ?thesis
  proof (cases "new_image_of r")
    case (Inl e)
    with tn show ?thesis by (simp add: np_process_insert_event_def)
  next
    case img: (Inr new_image)
    show ?thesis
    proof (cases "np_branch table_name")
      case Comment
      obtain res w' where p: "process_comment_notification new_image w = (res, w')"
        by (cases "process_comment_notification new_image w") auto
      with comment_notification_effect [of new_image w _ w']
      have "w' = w \<or> (\<exists>line. w' = w\<lparr>np_out := np_out w @ [line]\<rparr>)"
        by (cases res) auto
      with tn img Comment p show ?thesis by (simp add: np_process_insert_event_def)
    next
      case Message
      obtain res w' where p: "process_message_notification new_image w = (res, w')"
        by (cases "process_message_notification new_image w") auto
      with message_notification_effect [of new_image w _ w']
      have "w' = w \<or> (\<exists>line. w' = w\<lparr>np_out := np_out w @ [line]\<rparr>)"
        by (cases res) auto
      with tn img Message p show ?thesis by (simp add: np_process_insert_event_def)
    next
      case Reaction
      obtain res w' where p: "process_reaction_notification new_image w = (res, w')"
        by (cases "process_reaction_notification new_image w") auto
      with reaction_notification_effect [of new_image w _ w']
      have "w' = w \<or> (\<exists>line. w' = w\<lparr>np_out := np_out w @ [line]\<rparr>)"
        by (cases res) auto
      with tn img Reaction p show ?thesis by (simp add: np_process_insert_event_def)
    next
      case NoBranch
      with tn img show ?thesis by (simp add: np_process_insert_event_def)
    qed
  qed
qed

lemma np_process_ses: "ses_calls (snd (np_process_insert_event r w)) = ses_calls w"
  using np_process_effect [of r w] by auto

lemma np_record_ses: "ses_calls (np_record r w) = ses_calls w"
  using np_process_ses [of r w]
  by (simp add: np_record_def case_prod_beta split: sum.splits)

lemma np_records_ses: "ses_calls (np_records rs w) = ses_calls w"
  by (induction rs arbitrary: w) (simp_all add: np_record_ses)

lemma np_handler_ses: "ses_calls (snd (np_lambda_handler event w)) = ses_calls w"
  by (simp add: np_lambda_handler_def np_records_ses split: sum.splits)

lemma send_email_calls_ses:
  "ses_calls (snd (send_email env to_email subj body w)) =
     ses_calls w @ [\<lparr>source = ses_from_email env, to_addresses = [to_email],
                     subject = subj, body_html = body\<rparr>]"
  by (simp add: send_email_def Let_def split: option.splits)

text \<open>
  Claim C7. The notification processor hands no message to SES: for every event the
  messages given to \<open>ses.send_email\<close> after \<open>lambda_handler\<close> are those given
  before, and so for \<open>process_insert_event\<close> on every record, which changes nothing
  or prints one line. The observation is a real one: a call of \<open>send_email\<close> adds a
  message.
\<close>

theorem dispatcher_sends_no_email:
  "ses_calls (snd (np_lambda_handler event w)) = ses_calls w \<and>
   ses_calls (snd (np_process_insert_event r w)) = ses_calls w \<and>
   (snd (np_process_insert_event r w) = w \<or>
    (\<exists>line. snd (np_process_insert_event r w) = w\<lparr>np_out := np_out w @ [line]\<rparr>)) \<and>
   length (ses_calls (snd (send_email env to_email subj body w))) = Suc (length (ses_calls w))"
  using np_handler_ses [of event w] np_process_ses [of r w] np_process_effect [of r w]
  by (simp add: send_email_calls_ses)

lemma reaction_record_table:
  "table_name_of reaction_record = Inr ''hold-that-thought-comment-reactions''"
  by (simp add: table_name_of_def reaction_record_def reactions_arn_def py_split_def
      py_index_def split_at.simps)

lemma reactions_contains:
  "py_in ''reaction'' ''hold-that-thought-comment-reactions'' \<and>
   py_in ''comment'' ''hold-that-thought-comment-reactions''"
  by simp

lemma reactions_branch_au: "au_branch ''hold-that-thought-comment-reactions'' = Reaction"
  by (simp add: au_branch_def lower_def lower_char_def)

lemma reactions_branch_np: "np_branch ''hold-that-thought-comment-reactions'' = Comment"
  by (simp add: np_branch_def lower_def lower_char_def)

lemma reaction_record_image:
  "new_image_of reaction_record =
     Inr (JDict [(''commentId'', JDict [(''S'', JStr ''2025-01-15T10:00:00.000Z#abc'')]),
                 (''userId'', JDict [(''S'', JStr ''user-456'')]),
                 (''reactionType'', JDict [(''S'', JStr ''like'')]),
                 (''createdAt'', JDict [(''S'', JStr ''2025-01-15T11:00:00.000Z'')])])"
  by (simp add: new_image_of_def reaction_record_def)

text \<open>
  Claim C1 at the reaction event of the tests. The table name
  \<open>hold-that-thought-comment-reactions\<close> contains \<open>reaction\<close>; the activity aggregator
  routes it to its reaction branch, the notification processor to its comment branch,
  where the lookup of \<open>itemId\<close> raises, although \<open>process_reaction_notification\<close>
  would have accepted the new image.
\<close>

theorem reaction_event_misrouted:
  "table_name_of reaction_record = Inr ''hold-that-thought-comment-reactions'' \<and>
   py_in ''reaction'' ''hold-that-thought-comment-reactions'' \<and>
   au_branch ''hold-that-thought-comment-reactions'' = Reaction \<and>
   np_branch ''hold-that-thought-comment-reactions'' = Comment \<and>
   np_process_insert_event reaction_record np_world_example =
     (Inl (KeyError ''itemId''), np_world_example) \<and>
   process_reaction_notification
     (JDict [(''commentId'', JDict [(''S'', JStr ''2025-01-15T10:00:00.000Z#abc'')]),
             (''userId'', JDict [(''S'', JStr ''user-456'')]),
             (''reactionType'', JDict [(''S'', JStr ''like'')]),
             (''createdAt'', JDict [(''S'', JStr ''2025-01-15T11:00:00.000Z'')])])
     np_world_example =
     (Inr (), \<lparr>ses_calls = [],
                np_out = [NewReaction (JStr ''user-456'')
                            (JStr ''2025-01-15T10:00:00.000Z#abc'')]\<rparr>)"
proof -
  have "np_process_insert_event reaction_record np_world_example =
          (Inl (KeyError ''itemId''), np_world_example)"
    by (simp add: np_process_insert_event_def reaction_record_table reaction_record_image
        reactions_branch_np process_comment_notification_def attr_S_def)
  moreover have "process_reaction_notification
     (JDict [(''commentId'', JDict [(''S'', JStr ''2025-01-15T10:00:00.000Z#abc'')]),
             (''userId'', JDict [(''S'', JStr ''user-456'')]),
             (''reactionType'', JDict [(''S'', JStr ''like'')]),
             (''createdAt'', JDict [(''S'', JStr ''2025-01-15T11:00:00.000Z'')])])
     np_world_example =
     (Inr (), \<lparr>ses_calls = [],
                np_out = [NewReaction (JStr ''user-456'')
                            (JStr ''2025-01-15T10:00:00.000Z#abc'')]\<rparr>)"
    by (simp add: process_reaction_notification_def attr_S_def np_world_example_def)
  ultimately show ?thesis
    using reaction_record_table reactions_contains reactions_branch_au reactions_branch_np
    by simp
qed

text \<open>\<open>py_in\<close> is the substring relation, and lower-casing preserves it.\<close>

lemma py_in_iff: "py_in sub s \<longleftrightarrow> (\<exists>ps ss. s = ps @ sub @ ss)"
proof (induction s)
  case Nil
  show ?case by auto
next
  case (Cons c cs)
  show ?case
  proof
    assume "py_in sub (c # cs)"
    then consider "prefix sub (c # cs)" | "py_in sub cs" by auto
    then show "\<exists>ps ss. c # cs = ps @ sub @ ss"
    proof cases
      case 1
      then obtain ss where "c # cs = sub @ ss" by (auto simp add: prefix_def)
      then have "c # cs = [] @ sub @ ss" by simp
      then show ?thesis by blast
    next
      case 2
      with Cons.IH obtain ps ss where "cs = ps @ sub @ ss" by auto
      then have "c # cs = (c # ps) @ sub @ ss" by simp
      then show ?thesis by blast
    qed
  next
    assume "\<exists>ps ss. c # cs = ps @ sub @ ss"
    then obtain ps ss where eq: "c # cs = ps @ sub @ ss" by auto
    show "py_in sub (c # cs)"
    proof (cases ps)
      case Nil
      with eq have "prefix sub (c # cs)" by (simp add: prefix_def)
      then show ?thesis by simp
    next
      case (Cons p ps')
      with eq have "cs = ps' @ sub @ ss" by simp
      with Cons.IH have "py_in sub cs" by blast
      then show ?thesis by simp
    qed
  qed
qed

lemma lower_keeps_in: "py_in sub s \<Longrightarrow> py_in (lower sub) (lower s)"
proof -
  assume "py_in sub s"
  then obtain ps ss where "s = ps @ sub @ ss" by (auto simp add: py_in_iff)
  then have "lower s = lower ps @ lower sub @ lower ss" by (simp add: lower_def)
  then show ?thesis unfolding py_in_iff by blast
qed

lemma au_reaction_not_comment: "py_in ''reaction'' tn \<Longrightarrow> au_branch tn \<noteq> Comment"
proof -
  assume "py_in ''reaction'' tn"
  then have "py_in (lower ''reaction'') (lower tn)" by (rule lower_keeps_in)
  moreover have "lower ''reaction'' = ''reaction''" by (simp add: lower_def lower_char_def)
  ultimately show ?thesis by (simp add: au_branch_def)
qed

lemma np_comment_first: "py_in ''comment'' tn \<Longrightarrow> np_branch tn = Comment"
proof -
  assume "py_in ''comment'' tn"
  then have "py_in (lower ''comment'') (lower tn)" by (rule lower_keeps_in)
  moreover have "lower ''comment'' = ''comment''" by (simp add: lower_def lower_char_def)
  ultimately show ?thesis by (simp add: np_branch_def)
qed


end
